theory Spec2Isabelle
  imports Main "HOL-Library.Word"
begin

section \<open>The device controller (server.hpp, server.cpp)\<close>

text \<open>
  The five opcodes of server.hpp. A command is one \<open>char\<close>, as in the source.
\<close>

definition MESSAGE_ON :: char where "MESSAGE_ON = CHR ''i''"
definition MESSAGE_OFF :: char where "MESSAGE_OFF = CHR ''o''"
definition MESSAGE_MODE :: char where "MESSAGE_MODE = CHR ''m''"
definition MESSAGE_LOWER :: char where "MESSAGE_LOWER = CHR ''l''"
definition MESSAGE_HIGHER :: char where "MESSAGE_HIGHER = CHR ''h''"

text \<open>
  The machine integers of the source: \<open>kstd::i32\<close>, \<open>int32_t\<close> and \<open>int\<close> are 32-bit
  words read as two's complement (\<open>sint\<close>), \<open>kstd::u32\<close> is a 32-bit word read unsigned.
\<close>

type_synonym i32 = "32 word"
type_synonym u32 = "32 word"

definition MAX_SPEED :: i32 where "MAX_SPEED = 32"
definition MIN_SPEED :: i32 where "MIN_SPEED = 0"

text \<open>
  \<open>struct DeviceState\<close>. The enumeration \<open>dto::Mode\<close> is declared in dto.hpp, which is
  not among the sources, so the type of modes is the parameter \<open>'m\<close>. The two speeds are
  \<open>std::atomic_int32_t\<close>.
\<close>

record 'm DeviceState =
  is_on :: bool
  mode :: 'm
  target_speed :: i32
  actual_speed :: i32

text \<open>
  The part of \<open>class Server\<close> that the mutation operations and the receive loop read and
  write: the device state and the queue of commands waiting for the transmit loop
  (\<open>std::queue<char>\<close>: \<open>push\<close> appends at the back, the front is the head of the list).
  The optional monitor is a user-interface collaborator that is only notified
  (\<open>set_slider_speed\<close>, \<open>log_device\<close>); it is left out.
\<close>

record 'm Server =
  device_state :: "'m DeviceState"
  message_queue :: "char list"

text \<open>
  The state after construction: the members of \<open>_device_state\<close> are value-initialised
  atomics and the queue is empty. \<open>m0\<close> is the mode whose representation is zero.
\<close>

definition Server_init :: "'m \<Rightarrow> 'm Server" where
  "Server_init m0 =
     \<lparr>device_state = \<lparr>is_on = False, mode = m0, target_speed = 0, actual_speed = 0\<rparr>,
      message_queue = []\<rparr>"

text \<open>\<open>_message_queue.push(c)\<close> under the queue mutex.\<close>

definition push :: "char \<Rightarrow> 'm Server \<Rightarrow> 'm Server" where
  "push c s = s\<lparr>message_queue := message_queue s @ [c]\<rparr>"

text \<open>\<open>Server::set_is_on\<close>.\<close>

definition set_is_on :: "'m Server \<Rightarrow> bool \<Rightarrow> 'm Server" where
  "set_is_on s on =
     (if is_on (device_state s) = on then s
      else
        let s1 = push (if on then MESSAGE_ON else MESSAGE_OFF) s;
            new_speed = (if on then 1 else 0)
        in s1\<lparr>device_state := (device_state s1)\<lparr>is_on := on, target_speed := new_speed\<rparr>\<rparr>)"

text \<open>
  The loop \<open>for (auto i = 0; i < diff; ++i) _message_queue.push(c)\<close> of
  \<open>Server::set_speed\<close>; \<open>i\<close> and \<open>diff\<close> are of type \<open>int\<close> and compared signed.
  The counter stays below \<open>diff\<close>, so its increment never overflows.
\<close>

function push_loop :: "i32 \<Rightarrow> i32 \<Rightarrow> char \<Rightarrow> 'm Server \<Rightarrow> 'm Server" where
  "push_loop i diff c s =
     (if sint i < sint diff then push_loop (i + 1) diff c (push c s) else s)"
  by pat_completeness auto
termination
proof (relation "measure (\<lambda>(i, diff, c, s). nat (sint diff - sint i))", goal_cases)
  case 1
  show ?case by simp
next
  case (2 i diff c s)
  have "sint diff < 2 ^ 31"
    using sint_lt [of diff] by simp
  with 2 have "sint i + 1 < 2 ^ 31"
    by simp
  moreover have "- (2 ^ 31) \<le> sint i + 1"
    using sint_ge [of i] by simp
  ultimately have "sint (i + 1) = sint i + 1"
    by (simp add: sint_word_ariths signed_take_bit_int_eq_self)
  with 2 show ?case by simp
qed

declare push_loop.simps [simp del]

text \<open>
  \<open>Server::set_speed\<close>. \<open>step_commands\<close> is the part of the body after the power
  coupling: the step commands and the final store of the target speed. The second branch
  of the power coupling returns early and never reaches it.

  The speeds are compared as signed integers. Their difference is computed in 32-bit
  \<open>int\<close>: the subtraction of words gives the mathematical difference whenever that is
  between \<open>-2^31\<close> and \<open>2^31 - 1\<close>; beyond that the subtraction of the source overflows
  (which C++ leaves undefined) and the model has the two's-complement result that the
  machine subtraction produces.
\<close>

definition step_commands :: "'m Server \<Rightarrow> i32 \<Rightarrow> 'm Server" where
  "step_commands s speed =
     (let s1 =
        (if sint (target_speed (device_state s)) < sint speed
           then push_loop 0 (speed - target_speed (device_state s)) MESSAGE_HIGHER s
         else if sint (target_speed (device_state s)) > sint speed
           then push_loop 0 (target_speed (device_state s) - speed) MESSAGE_LOWER s
         else s)
      in s1\<lparr>device_state := (device_state s1)\<lparr>target_speed := speed\<rparr>\<rparr>)"

definition set_speed :: "'m Server \<Rightarrow> i32 \<Rightarrow> 'm Server" where
  "set_speed s speed =
     (if \<not> is_on (device_state s) \<and> sint speed > 0
        then step_commands (set_is_on s True) speed
      else if is_on (device_state s) \<and> speed = 0 then set_is_on s False
      else step_commands s speed)"

text \<open>\<open>Server::set_mode\<close>.\<close>

definition set_mode :: "'m Server \<Rightarrow> 'm \<Rightarrow> 'm Server" where
  "set_mode s m =
     (if \<not> is_on (device_state s) then s
      else s\<lparr>device_state := (device_state s)\<lparr>mode := m\<rparr>\<rparr>)"

subsection \<open>The receive loop\<close>

text \<open>
  \<open>Server::handle_feedback\<close>: the classification of one feedback line. \<open>++\<close> and
  \<open>--\<close> on the atomic \<open>actual_speed\<close> wrap around, as the addition and subtraction of
  words do.
\<close>

definition handle_feedback :: "'m Server \<Rightarrow> string \<Rightarrow> 'm Server" where
  "handle_feedback s feedback =
     (let state = device_state s in
      if feedback = ''power_on'' then s\<lparr>device_state := state\<lparr>actual_speed := 1\<rparr>\<rparr>
      else if feedback = ''power_off'' then s\<lparr>device_state := state\<lparr>actual_speed := 0\<rparr>\<rparr>
      else if feedback = ''speed_up''
        then s\<lparr>device_state := state\<lparr>actual_speed := actual_speed state + 1\<rparr>\<rparr>
      else if feedback = ''speed_down''
        then s\<lparr>device_state := state\<lparr>actual_speed := actual_speed state - 1\<rparr>\<rparr>
      else s)"

text \<open>
  \<open>buffer.push_back('\0'); std::string(buffer.data())\<close>: the bytes of the buffer up to
  its first NUL byte.
\<close>

definition c_string :: "char list \<Rightarrow> string" where
  "c_string buffer = takeWhile (\<lambda>c. c \<noteq> CHR 0x00) buffer"

text \<open>\<open>if (feedback.ends_with('\r')) feedback = feedback.substr(0, feedback.size() - 1)\<close>.\<close>

definition strip_cr :: "string \<Rightarrow> string" where
  "strip_cr feedback =
     (if feedback \<noteq> [] \<and> last feedback = CHR 0x0D then butlast feedback else feedback)"

text \<open>
  What an iteration of \<open>Server::rx_loop\<close> does with the bytes it has accumulated
  (the block \<open>if (!buffer.empty()) { ... }\<close>, less its log entry).
\<close>

definition process_buffer :: "'m Server \<Rightarrow> char list \<Rightarrow> 'm Server" where
  "process_buffer s buffer =
     (if buffer \<noteq> [] then handle_feedback s (strip_cr (c_string buffer)) else s)"

text \<open>
  The serial link as the receive loop sees it: the results of the successive calls of
  \<open>try_read\<close>, \<open>Some c\<close> when the call returned true and stored the byte \<open>c\<close>, \<open>None\<close>
  when it returned false (nothing arrived within the timeout). After the end of the list
  every call returns false.

  \<open>read_line\<close> is the inner loop \<open>while (try_read(current)) { if (current == '\n') break;
  buffer.push_back(current); }\<close>; it returns the buffer and the reads that are left.
\<close>

fun read_line :: "char option list \<Rightarrow> char list \<Rightarrow> char list \<times> char option list" where
  "read_line [] buffer = (buffer, [])"
| "read_line (None # reads) buffer = (buffer, reads)"
| "read_line (Some current # reads) buffer =
     (if current = CHR 0x0A then (buffer, reads) else read_line reads (buffer @ [current]))"

text \<open>One iteration of the outer loop of \<open>Server::rx_loop\<close>, which starts with an empty buffer.\<close>

definition rx_iteration :: "'m Server \<Rightarrow> char option list \<Rightarrow> 'm Server \<times> char option list" where
  "rx_iteration s reads =
     (case read_line reads [] of (buffer, rest) \<Rightarrow> (process_buffer s buffer, rest))"

text \<open>
  \<open>Server::rx_loop\<close>, run until the scripted reads are used up; from then on an iteration
  reads nothing and changes nothing.
\<close>

function rx_loop :: "'m Server \<Rightarrow> char option list \<Rightarrow> 'm Server" where
  "rx_loop s reads =
     (if reads = [] then s
      else case rx_iteration s reads of (s', rest) \<Rightarrow> rx_loop s' rest)"
  by pat_completeness auto
termination
proof (relation "measure (\<lambda>(s, reads). length reads)", goal_cases)
  case 1
  show ?case by simp
next
  case (2 s reads s' rest)
  have shorter: "length (snd (read_line rs b)) \<le> length rs" for rs :: "char option list" and b
    by (induction rs b rule: read_line.induct) auto
  have "length (snd (read_line reads [])) < length reads"
  proof (cases reads)
    case Nil
    with 2 show ?thesis by simp
  next
    case (Cons r rs)
    show ?thesis
    proof (cases r)
      case None
      with Cons show ?thesis by simp
    next
      case (Some c)
      with Cons shorter [of rs "[c]"] show ?thesis by (simp add: less_Suc_eq_le)
    qed
  qed
  moreover have "rest = snd (read_line reads [])"
    using 2 by (simp add: rx_iteration_def split: prod.splits)
  ultimately show ?case
    by simp
qed

declare rx_loop.simps [simp del]

subsection \<open>Sequences of operations\<close>

text \<open>
  The steps that change the state of the controller: a call of one of the three mutation
  operations, or a buffer of received bytes processed by the receive loop. \<open>run\<close>
  applies a list of them in order.
\<close>

datatype 'm Operation =
  SetIsOn bool
| SetSpeed i32
| SetMode 'm
| Received "char list"

fun apply_operation :: "'m Server \<Rightarrow> 'm Operation \<Rightarrow> 'm Server" where
  "apply_operation s (SetIsOn on) = set_is_on s on"
| "apply_operation s (SetSpeed speed) = set_speed s speed"
| "apply_operation s (SetMode m) = set_mode s m"
| "apply_operation s (Received buffer) = process_buffer s buffer"

definition run :: "'m Server \<Rightarrow> 'm Operation list \<Rightarrow> 'm Server" where
  "run s ops = foldl apply_operation s ops"

section \<open>The serial link (serial.hpp)\<close>

text \<open>
  \<open>enum class BaudRate\<close>. The enumerators \<open>_50\<close>, ..., \<open>_38400\<close> are written
  \<open>Baud_50\<close>, ..., \<open>Baud_38400\<close>; their values are the termios constants, which play no
  part here.
\<close>

datatype BaudRate =
  Baud_50 | Baud_75 | Baud_110 | Baud_134 | Baud_150 | Baud_200 | Baud_300 | Baud_600
| Baud_1200 | Baud_1800 | Baud_2400 | Baud_4800 | Baud_9600 | Baud_19200 | Baud_38400

text \<open>\<open>serial::find_closest_baud_rate\<close>; \<open>rate\<close> is a \<open>kstd::u32\<close>, compared unsigned.\<close>

definition find_closest_baud_rate :: "u32 \<Rightarrow> BaudRate" where
  "find_closest_baud_rate rate =
     (if rate \<le> 50 then Baud_50
      else if rate \<le> 75 then Baud_75
      else if rate \<le> 110 then Baud_110
      else if rate \<le> 134 then Baud_134
      else if rate \<le> 150 then Baud_150
      else if rate \<le> 200 then Baud_200
      else if rate \<le> 300 then Baud_300
      else if rate \<le> 600 then Baud_600
      else if rate \<le> 1200 then Baud_1200
      else if rate \<le> 1800 then Baud_1800
      else if rate \<le> 2400 then Baud_2400
      else if rate \<le> 4800 then Baud_4800
      else if rate \<le> 9600 then Baud_9600
      else if rate \<le> 19200 then Baud_19200
      else if rate \<le> 38400 then Baud_38400
      else Baud_9600)"

text \<open>
  \<open>serial::to_baud_rate_count\<close>. Its \<open>default\<close> branch is for values outside the
  enumeration, which the datatype does not have.
\<close>

fun to_baud_rate_count :: "BaudRate \<Rightarrow> u32" where
  "to_baud_rate_count Baud_50 = 50"
| "to_baud_rate_count Baud_75 = 75"
| "to_baud_rate_count Baud_110 = 110"
| "to_baud_rate_count Baud_134 = 134"
| "to_baud_rate_count Baud_150 = 150"
| "to_baud_rate_count Baud_200 = 200"
| "to_baud_rate_count Baud_300 = 300"
| "to_baud_rate_count Baud_600 = 600"
| "to_baud_rate_count Baud_1200 = 1200"
| "to_baud_rate_count Baud_1800 = 1800"
| "to_baud_rate_count Baud_2400 = 2400"
| "to_baud_rate_count Baud_4800 = 4800"
| "to_baud_rate_count Baud_9600 = 9600"
| "to_baud_rate_count Baud_19200 = 19200"
| "to_baud_rate_count Baud_38400 = 38400"

section \<open>The gateway client (gateway.hpp, gateway.cpp)\<close>

text \<open>
  JSON values, and the operations of the JSON library that the gateway uses on a decoded
  body: \<open>is_object\<close>, \<open>contains\<close> and the lookup of a key (\<open>contains\<close> followed by
  \<open>operator[]\<close>). \<open>is_array\<close> is a case distinction on \<open>JArray\<close>.
\<close>

datatype json =
  JNull
| JBool bool
| JNumber int
| JString string
| JArray "json list"
| JObject "(string \<times> json) list"

fun is_object :: "json \<Rightarrow> bool" where
  "is_object (JObject members) = True"
| "is_object j = False"

fun json_find :: "json \<Rightarrow> string \<Rightarrow> json option" where
  "json_find (JObject members) key = map_of members key"
| "json_find j key = None"

definition json_contains :: "json \<Rightarrow> string \<Rightarrow> bool" where
  "json_contains j key = (json_find j key \<noteq> None)"

text \<open>
  \<open>httplib::Result\<close> is \<open>response option\<close>: \<open>None\<close> when the request produced no
  response.
\<close>

record response =
  status :: int
  body :: string

text \<open>
  What the gateway sends, by endpoint. The shared password and the timestamp, which are
  part of every request body, are left out. \<open>StateDto\<close> is the snapshot that
  \<open>broadcast_state\<close> builds (\<open>dto::DeviceState\<close>).
\<close>

record 'm StateDto =
  dto_is_on :: bool
  dto_accepts_commands :: bool
  dto_target_speed :: i32
  dto_actual_speed :: i32
  dto_mode :: 'm

datatype 'm request =
  NewSession
| Fetch
| SetOnline bool
| SetState "'m StateDto"

text \<open>
  What an observer of the gateway thread sees, in order: log entries (a level, the format
  string and its arguments), requests and sleeps (in milliseconds).
\<close>

datatype level = Info | Warn | Error

datatype argument = Code int | Field json | What string | Text string | Number int

datatype 'm event =
  Log level string "argument list"
| Request string "'m request"
| Sleep nat

fun is_request :: "'m event \<Rightarrow> bool" where
  "is_request (Request path req) = True"
| "is_request (Log l fmt args) = False"
| "is_request (Sleep ms) = False"

text \<open>
  A task as the poll loop dispatches it. dto.hpp is not among the sources; the three
  cases are those of the \<open>switch\<close> in \<open>update_loop\<close>, and \<open>OTHER\<close> is a type tag that
  is none of them (the \<open>switch\<close> has no default).
\<close>

datatype 'm Task = POWER bool | SPEED i32 | MODE 'm | OTHER

text \<open>
  The gateway and its surroundings: the controller it drives, its configuration, the
  session password, the answers of the remote endpoint to the successive requests
  (after the end of the list a request gets no response) and what has been observed so
  far. The optional monitor is left out, as for the controller.
\<close>

record 'm Gateway =
  server :: "'m Server"
  address :: string
  port :: u32
  update_rate :: u32
  session_password :: string
  responses :: "response option list"
  trace :: "'m event list"

text \<open>
  A function of the gateway is \<open>noexcept\<close>: an exception that leaves it ends the process
  (\<open>Terminate\<close>).
\<close>

datatype 'a outcome = Terminate | Return 'a

definition log :: "level \<Rightarrow> string \<Rightarrow> argument list \<Rightarrow> 'm Gateway \<Rightarrow> 'm Gateway" where
  "log l fmt args g = g\<lparr>trace := trace g @ [Log l fmt args]\<rparr>"

text \<open>
  \<open>client.Post(path, body, mime)\<close>: the request is observed and gets the next answer of
  the remote endpoint, which is then used up.
\<close>

definition next_response :: "'m Gateway \<Rightarrow> response option" where
  "next_response g = (case responses g of [] \<Rightarrow> None | r # rs \<Rightarrow> r)"

definition Post :: "string \<Rightarrow> 'm request \<Rightarrow> 'm Gateway \<Rightarrow> response option \<times> 'm Gateway" where
  "Post path req g =
     (next_response g,
      g\<lparr>responses := drop 1 (responses g), trace := trace g @ [Request path req]\<rparr>)"

text \<open>
  \<open>Gateway::check_status\<close>. \<open>parse\<close> stands for \<open>nlohmann::json::parse\<close>: \<open>Inr\<close> the
  decoded body, \<open>Inl\<close> the message of the exception it throws. An exception thrown in
  the \<open>try\<close> block, by the parser or by the function itself for a body without an
  \<open>error\<close> field, is caught there and logged.
\<close>

definition check_status ::
  "(string \<Rightarrow> string + json) \<Rightarrow> response option \<Rightarrow> 'm Gateway \<Rightarrow> bool \<times> 'm Gateway" where
  "check_status parse res g =
     (case res of
        None \<Rightarrow> (False, log Error ''Could not session data: invalid response'' [] g)
      | Some r \<Rightarrow>
          if status r = 200 then (True, g)
          else
            (case parse (body r) of
               Inl what \<Rightarrow>
                 (False, log Error ''Could not fetch session data: code {}/{}''
                           [Code (status r), What what] g)
             | Inr res_body \<Rightarrow>
                 (case json_find res_body ''error'' of
                    Some e \<Rightarrow>
                      (False, log Error ''Could not fetch session data: code {}/{}''
                                [Code (status r), Field e] g)
                  | None \<Rightarrow>
                      (False, log Error ''Could not fetch session data: code {}/{}''
                                [Code (status r), What ''Could not decode gateway error''] g))))"

text \<open>\<open>Gateway::broadcast_is_online\<close>.\<close>

definition broadcast_is_online ::
  "(string \<Rightarrow> string + json) \<Rightarrow> bool \<Rightarrow> 'm Gateway \<Rightarrow> 'm Gateway" where
  "broadcast_is_online parse is_online g =
     (case Post ''/setonline'' (SetOnline is_online) g of
        (res, g1) \<Rightarrow> snd (check_status parse res g1))"

text \<open>\<open>Server::accepts_commands\<close> and \<open>Gateway::broadcast_state\<close>.\<close>

definition accepts_commands :: "'m Server \<Rightarrow> bool" where
  "accepts_commands s = (actual_speed (device_state s) = target_speed (device_state s))"

definition broadcast_state :: "(string \<Rightarrow> string + json) \<Rightarrow> 'm Gateway \<Rightarrow> 'm Gateway" where
  "broadcast_state parse g =
     (let s = server g;
          state = \<lparr>dto_is_on = is_on (device_state s),
                   dto_accepts_commands = accepts_commands s,
                   dto_target_speed = target_speed (device_state s),
                   dto_actual_speed = actual_speed (device_state s),
                   dto_mode = mode (device_state s)\<rparr>
      in case Post ''/setstate'' (SetState state) g of
           (res, g1) \<Rightarrow> snd (check_status parse res g1))"

text \<open>
  \<open>Gateway::create_session\<close>. The session password is stored by a conversion of
  \<open>res_body["password"]\<close> to \<open>std::string\<close>, which throws unless the value is a string.
\<close>

definition create_session ::
  "(string \<Rightarrow> string + json) \<Rightarrow> 'm Gateway \<Rightarrow> bool outcome \<times> 'm Gateway" where
  "create_session parse g =
     (case Post ''/newsession'' NewSession g of
        (res, g1) \<Rightarrow>
          (case check_status parse res g1 of
             (False, g2) \<Rightarrow>
               (Return False, log Warn ''Received invalid new session response'' [] g2)
           | (True, g2) \<Rightarrow>
               (case res of
                  None \<Rightarrow> (Terminate, g2)
                | Some r \<Rightarrow>
                    (case parse (body r) of
                       Inl what \<Rightarrow> (Terminate, g2)
                     | Inr res_body \<Rightarrow>
                         (case json_find res_body ''password'' of
                            None \<Rightarrow>
                              (Return False,
                               log Warn ''Received invalid new session response'' [] g2)
                          | Some (JString pw) \<Rightarrow>
                              (Return True,
                               log Info ''Created session password: {}'' [Text pw]
                                 (g2\<lparr>session_password := pw\<rparr>))
                          | Some other \<Rightarrow> (Terminate, g2))))))"

text \<open>
  The dispatch of one task, and the loop \<open>for (const auto& task: tasks)\<close> of
  \<open>update_loop\<close>. \<open>deserialize\<close> stands for \<open>dto::Task::deserialize\<close>: \<open>None\<close> when
  it throws.
\<close>

fun dispatch :: "'m Task \<Rightarrow> 'm Server \<Rightarrow> 'm Server" where
  "dispatch (POWER on) s = set_is_on s on"
| "dispatch (SPEED speed) s = set_speed s speed"
| "dispatch (MODE m) s = set_mode s m"
| "dispatch OTHER s = s"

fun apply_tasks ::
  "(json \<Rightarrow> 'm Task option) \<Rightarrow> json list \<Rightarrow> 'm Server \<Rightarrow> unit outcome \<times> 'm Server" where
  "apply_tasks deserialize [] s = (Return (), s)"
| "apply_tasks deserialize (task # tasks) s =
     (case deserialize task of
        None \<Rightarrow> (Terminate, s)
      | Some task_dto \<Rightarrow> apply_tasks deserialize tasks (dispatch task_dto s))"

text \<open>
  One iteration of the poll loop of \<open>update_loop\<close> (the body of
  \<open>while (self->_is_running)\<close>). \<open>Return ()\<close> is the end of the iteration, by \<open>continue\<close>
  or by reaching the end of the body.
\<close>

definition poll_iteration ::
  "(string \<Rightarrow> string + json) \<Rightarrow> (json \<Rightarrow> 'm Task option) \<Rightarrow> 'm Gateway
     \<Rightarrow> unit outcome \<times> 'm Gateway" where
  "poll_iteration parse deserialize g =
     (case Post ''/fetch'' Fetch g of
        (res, g1) \<Rightarrow>
          (case check_status parse res g1 of
             (False, g2) \<Rightarrow> (Return (), g2)
           | (True, g2) \<Rightarrow>
               (case res of
                  None \<Rightarrow> (Terminate, g2)
                | Some r \<Rightarrow>
                    (case parse (body r) of
                       Inl what \<Rightarrow> (Terminate, g2)
                     | Inr res_body \<Rightarrow>
                         if \<not> is_object res_body \<or> \<not> json_contains res_body ''tasks''
                         then (Return (), log Warn ''Malformed response body'' [] g2)
                         else
                           (case json_find res_body ''tasks'' of
                              Some (JArray tasks) \<Rightarrow>
                                (case apply_tasks deserialize tasks (server g2) of
                                   (Terminate, s) \<Rightarrow> (Terminate, g2\<lparr>server := s\<rparr>)
                                 | (Return u, s) \<Rightarrow>
                                     let g3 = broadcast_state parse (g2\<lparr>server := s\<rparr>)
                                     in (Return (),
                                         g3\<lparr>trace := trace g3 @ [Sleep (unat (update_rate g3))]\<rparr>))
                            | other \<Rightarrow>
                                (Return (),
                                 log Warn ''Tasks list must be an array'' [] g2))))))"

text \<open>
  The poll loop. Its condition reads the flag \<open>_is_running\<close>, which another thread
  clears; \<open>n\<close> is the number of times the flag is read as true before it is read as
  false, so a run with a finite \<open>n\<close> is a run that is shut down.
\<close>

fun poll_loop ::
  "(string \<Rightarrow> string + json) \<Rightarrow> (json \<Rightarrow> 'm Task option) \<Rightarrow> nat \<Rightarrow> 'm Gateway
     \<Rightarrow> unit outcome \<times> 'm Gateway" where
  "poll_loop parse deserialize 0 g = (Return (), g)"
| "poll_loop parse deserialize (Suc n) g =
     (case poll_iteration parse deserialize g of
        (Terminate, g1) \<Rightarrow> (Terminate, g1)
      | (Return u, g1) \<Rightarrow> poll_loop parse deserialize n g1)"

text \<open>
  \<open>Gateway::update_loop\<close>. \<open>startup\<close> is its beginning, up to the call of
  \<open>create_session\<close>; the configuration of the HTTP client there has no observable effect
  and is left out. The port is logged as \<open>static_cast<int>(self->_port)\<close>, the signed
  reading of the \<open>kstd::u32\<close>.
\<close>

definition startup :: "(string \<Rightarrow> string + json) \<Rightarrow> 'm Gateway \<Rightarrow> 'm Gateway" where
  "startup parse g =
     (let g1 = log Info ''Starting gateway client'' [] g;
          g2 = log Info ''Connecting to {}:{}'' [Text (address g1), Number (sint (port g1))] g1
      in broadcast_is_online parse True g2)"

definition update_loop ::
  "(string \<Rightarrow> string + json) \<Rightarrow> (json \<Rightarrow> 'm Task option) \<Rightarrow> nat \<Rightarrow> 'm Gateway
     \<Rightarrow> unit outcome \<times> 'm Gateway" where
  "update_loop parse deserialize n g =
     (case create_session parse (startup parse g) of
        (Terminate, g1) \<Rightarrow> (Terminate, g1)
      | (Return False, g1) \<Rightarrow> (Return (), g1)
      | (Return True, g1) \<Rightarrow>
          (case poll_loop parse deserialize n g1 of
             (Terminate, g2) \<Rightarrow> (Terminate, g2)
           | (Return u, g2) \<Rightarrow> (Return (), broadcast_is_online parse False g2)))"

section \<open>Properties of the mutation operations\<close>

subsection \<open>The step loop and the operations, in closed form\<close>

lemma sint_diff_in_range:
  fixes a b :: i32
  assumes "- (2 ^ 31) \<le> sint a - sint b" and "sint a - sint b < 2 ^ 31"
  shows "sint (a - b) = sint a - sint b"
  using assms by (simp add: sint_word_ariths signed_take_bit_int_eq_self)

lemma sint_succ_below:
  fixes i diff :: i32
  assumes "sint i < sint diff"
  shows "sint (i + 1) = sint i + 1"
proof -
  have "sint diff < 2 ^ 31"
    using sint_lt [of diff] by simp
  with assms have "sint i + 1 < 2 ^ 31"
    by simp
  moreover have "- (2 ^ 31) \<le> sint i + 1"
    using sint_ge [of i] by simp
  ultimately show ?thesis
    by (simp add: sint_word_ariths signed_take_bit_int_eq_self)
qed

lemma push_loop_queue:
  "push_loop i diff c s =
     s\<lparr>message_queue := message_queue s @ replicate (nat (sint diff - sint i)) c\<rparr>"
proof (induction i diff c s rule: push_loop.induct)
  case (1 i diff c s)
  show ?case
  proof (cases "sint i < sint diff")
    case True
    then have "nat (sint diff - sint i) = Suc (nat (sint diff - sint (i + 1)))"
      by (simp add: sint_succ_below)
    with True 1 show ?thesis
      by (subst push_loop.simps) (simp add: push_def replicate_append_same)
  next
    case False
    then show ?thesis by (subst push_loop.simps) simp
  qed
qed

lemma step_commands_eq:
  "step_commands s speed =
     s\<lparr>device_state := (device_state s)\<lparr>target_speed := speed\<rparr>,
       message_queue := message_queue s @
         (if sint (target_speed (device_state s)) < sint speed
          then replicate (nat (sint (speed - target_speed (device_state s)))) MESSAGE_HIGHER
          else replicate (nat (sint (target_speed (device_state s) - speed))) MESSAGE_LOWER)\<rparr>"
proof -
  have "target_speed (device_state s) - speed = 0"
    if "\<not> sint (target_speed (device_state s)) < sint speed"
      "\<not> sint speed < sint (target_speed (device_state s))"
  proof -
    from that have "sint (target_speed (device_state s)) = sint speed" by simp
    then have "target_speed (device_state s) = speed"
      by (simp add: word_eq_iff_signed [where ?'a = int])
    then show ?thesis by simp
  qed
  then show ?thesis
    by (auto simp add: step_commands_def push_loop_queue Let_def)
qed

lemma replicate_numerals:
  "replicate 2 x = [x, x]" "replicate 3 x = [x, x, x]" "replicate 4 x = [x, x, x, x]"
  by (simp_all add: eval_nat_numeral)

lemma run_Nil: "run s [] = s"
  by (simp add: run_def)

lemma run_snoc: "run s (xs @ [x]) = apply_operation (run s xs) x"
  by (simp add: run_def)

subsection \<open>Power\<close>

text \<open>
  Claim C5. For every boolean \<open>b\<close>, \<open>set_is_on(b)\<close> changes nothing (no command, no
  field) when \<open>is_on\<close> already equals \<open>b\<close>. Otherwise it enqueues exactly one command,
  ON if \<open>b\<close> is true and OFF if it is false, sets \<open>is_on\<close> to \<open>b\<close> and sets
  \<open>target_speed\<close> to 1 when turning on and to 0 when turning off; nothing else changes.
  Consequently a second \<open>set_is_on(true)\<close> right after a first one changes nothing, and
  the two calls, made on a device that is off, enqueue exactly one ON command and leave
  \<open>is_on\<close> true.
\<close>

theorem set_is_on_effect:
  "(is_on (device_state s) = b \<longrightarrow> set_is_on s b = s) \<and>
   (is_on (device_state s) \<noteq> b \<longrightarrow>
      set_is_on s b =
        s\<lparr>device_state := (device_state s)\<lparr>is_on := b, target_speed := (if b then 1 else 0)\<rparr>,
          message_queue := message_queue s @ [if b then MESSAGE_ON else MESSAGE_OFF]\<rparr>) \<and>
   set_is_on (set_is_on s True) True = set_is_on s True \<and>
   (\<not> is_on (device_state s) \<longrightarrow>
      message_queue (set_is_on (set_is_on s True) True) = message_queue s @ [MESSAGE_ON] \<and>
      is_on (device_state (set_is_on (set_is_on s True) True)))"
  by (simp add: set_is_on_def push_def Let_def)

text \<open>At the initial state, which is off, and at the state after one \<open>set_is_on(true)\<close>.\<close>

theorem set_is_on_effect_witness:
  "\<not> is_on (device_state (Server_init (0::nat))) \<and>
   is_on (device_state (Server_init (0::nat))) \<noteq> True \<and>
   is_on (device_state (set_is_on (Server_init (0::nat)) True)) = True \<and>
   set_is_on (Server_init (0::nat)) True =
     \<lparr>device_state = \<lparr>is_on = True, mode = 0, target_speed = 1, actual_speed = 0\<rparr>,
      message_queue = ''i''\<rparr> \<and>
   set_is_on (set_is_on (Server_init (0::nat)) True) True = set_is_on (Server_init 0) True \<and>
   message_queue (set_is_on (set_is_on (Server_init (0::nat)) True) True) = ''i''"
  using set_is_on_effect [of "Server_init (0::nat)" True]
    set_is_on_effect [of "set_is_on (Server_init (0::nat)) True" True]
  by (simp add: Server_init_def MESSAGE_ON_def)

subsection \<open>Speed\<close>

text \<open>
  A call \<open>set_speed(t)\<close> with \<open>t > 0\<close> while the device is on enqueues
  \<open>|t - target_speed|\<close> step commands, HIGHER if \<open>t\<close> is larger and LOWER if it is
  smaller, and stores \<open>t\<close>, provided that the difference \<open>t - target_speed\<close> is at
  most \<open>2^31 - 1\<close>. That is so whenever \<open>target_speed\<close> is not negative, and so
  whenever both speeds lie between \<open>MIN_SPEED\<close> and \<open>MAX_SPEED\<close>.
\<close>

lemma set_speed_steps_in_range:
  assumes "is_on (device_state s)" and "0 < sint t"
    and "sint t - sint (target_speed (device_state s)) < 2 ^ 31"
  shows "set_speed s t =
     s\<lparr>device_state := (device_state s)\<lparr>target_speed := t\<rparr>,
       message_queue := message_queue s @
         replicate (nat \<bar>sint t - sint (target_speed (device_state s))\<bar>)
           (if sint (target_speed (device_state s)) < sint t
            then MESSAGE_HIGHER else MESSAGE_LOWER)\<rparr>"
proof -
  let ?old = "target_speed (device_state s)"
  have t: "sint t < 2 ^ 31" using sint_lt [of t] by simp
  have o: "sint ?old < 2 ^ 31" "- (2 ^ 31) \<le> sint ?old"
    using sint_lt [of ?old] sint_ge [of ?old] by simp_all
  have up: "sint (t - ?old) = sint t - sint ?old"
    using assms(2,3) o by (intro sint_diff_in_range) simp_all
  have down: "sint (?old - t) = sint ?old - sint t" if "sint t \<le> sint ?old"
    using that assms(2) o t by (intro sint_diff_in_range) simp_all
  have "t \<noteq> 0" using assms(2) by auto
  with assms(1) have "set_speed s t = step_commands s t"
    by (simp add: set_speed_def)
  then show ?thesis
    using up down by (auto simp add: step_commands_eq)
qed

text \<open>
  Claim C1 says that every call \<open>set_speed(t)\<close> with \<open>t > 0\<close> while the device is on
  enqueues exactly \<open>|t - target_speed|\<close> step commands. \<open>set_speed\<close> accepts any
  32-bit speed, so the target speed can be negative, and then the difference, which the
  source computes in 32-bit \<open>int\<close>, can overflow. After \<open>set_is_on(true)\<close> and
  \<open>set_speed(-5)\<close> the device is on with \<open>target_speed = -5\<close>; \<open>set_speed(2147483647)\<close>
  then enqueues no command at all, where the claim has 2147483652 HIGHER commands, and
  stores 2147483647.
\<close>

theorem set_speed_overflow:
  "is_on (device_state (run (Server_init (0::nat)) [SetIsOn True, SetSpeed (- 5)])) \<and>
   sint (target_speed (device_state
     (run (Server_init (0::nat)) [SetIsOn True, SetSpeed (- 5)]))) = - 5 \<and>
   0 < sint (2147483647 :: i32) \<and>
   sint (2147483647 :: i32) - sint (- 5 :: i32) = 2147483652 \<and>
   message_queue (run (Server_init (0::nat)) [SetIsOn True, SetSpeed (- 5)]) = ''illllll'' \<and>
   set_speed (run (Server_init (0::nat)) [SetIsOn True, SetSpeed (- 5)]) 2147483647 =
     \<lparr>device_state =
        \<lparr>is_on = True, mode = 0, target_speed = 2147483647, actual_speed = 0\<rparr>,
      message_queue = ''illllll''\<rparr>"
proof -
  have low: "nat (sint (1 - (- 5 :: i32))) = 6"
    by simp
  have six: "replicate 6 MESSAGE_LOWER = ''llllll''"
    by (simp add: MESSAGE_LOWER_def eval_nat_numeral)
  have before: "run (Server_init (0::nat)) [SetIsOn True, SetSpeed (- 5)] =
     \<lparr>device_state = \<lparr>is_on = True, mode = 0, target_speed = - 5, actual_speed = 0\<rparr>,
      message_queue = ''illllll''\<rparr>"
    by (simp add: run_def Server_init_def set_is_on_def push_def set_speed_def step_commands_eq
        low six MESSAGE_ON_def del: diff_minus_eq_add)
  have wrapped: "sint (2147483647 - (- 5) :: i32) = - 2147483644"
    by simp
  have after: "set_speed
     \<lparr>device_state = \<lparr>is_on = True, mode = (0::nat), target_speed = - 5, actual_speed = 0\<rparr>,
      message_queue = ''illllll''\<rparr> 2147483647 =
     \<lparr>device_state =
        \<lparr>is_on = True, mode = 0, target_speed = 2147483647, actual_speed = 0\<rparr>,
      message_queue = ''illllll''\<rparr>"
    by (simp add: set_speed_def step_commands_eq wrapped del: diff_minus_eq_add)
  from before after show ?thesis by simp
qed

text \<open>
  Claim C4. \<open>set_speed(0)\<close> while the device is on enqueues exactly one OFF command and
  no step command, and sets \<open>is_on\<close> to false (and \<open>target_speed\<close> to 0).
  \<open>set_speed(t)\<close> with \<open>t > 0\<close> while the device is off with \<open>target_speed = 0\<close>
  enqueues ON followed by exactly \<open>t - 1\<close> HIGHER commands; afterwards
  \<open>target_speed = t\<close> and \<open>is_on\<close> is true.
\<close>

theorem set_speed_power:
  "(is_on (device_state s) \<longrightarrow>
      set_speed s 0 =
        s\<lparr>device_state := (device_state s)\<lparr>is_on := False, target_speed := 0\<rparr>,
          message_queue := message_queue s @ [MESSAGE_OFF]\<rparr>) \<and>
   (\<not> is_on (device_state s) \<and> target_speed (device_state s) = 0 \<and> 0 < sint t \<longrightarrow>
      set_speed s t =
        s\<lparr>device_state := (device_state s)\<lparr>is_on := True, target_speed := t\<rparr>,
          message_queue :=
            message_queue s @ MESSAGE_ON # replicate (nat (sint t - 1)) MESSAGE_HIGHER\<rparr>)"
proof -
  have off: "set_speed s t =
        s\<lparr>device_state := (device_state s)\<lparr>is_on := True, target_speed := t\<rparr>,
          message_queue :=
            message_queue s @ MESSAGE_ON # replicate (nat (sint t - 1)) MESSAGE_HIGHER\<rparr>"
    if "\<not> is_on (device_state s)" "0 < sint t"
  proof -
    have "sint t < 2 ^ 31" using sint_lt [of t] by simp
    with that(2) have d: "sint (t - 1) = sint t - 1"
      using sint_diff_in_range [of t 1] by simp
    have one: "t = 1" if "sint t = 1"
      using that by (simp add: word_eq_iff_signed [where ?'a = int])
    show ?thesis
    proof (cases "sint t = 1")
      case True
      with that one show ?thesis
        by (simp add: set_speed_def step_commands_eq set_is_on_def push_def)
    next
      case False
      with that d show ?thesis
        by (auto simp add: set_speed_def step_commands_eq set_is_on_def push_def)
    qed
  qed
  have on: "set_speed s 0 =
        s\<lparr>device_state := (device_state s)\<lparr>is_on := False, target_speed := 0\<rparr>,
          message_queue := message_queue s @ [MESSAGE_OFF]\<rparr>"
    if "is_on (device_state s)"
    using that by (simp add: set_speed_def set_is_on_def push_def)
  from on off show ?thesis by blast
qed

text \<open>
  \<open>set_speed(0)\<close> after power-on, and the scenario of the specification:
  \<open>set_speed(4)\<close> on the initial state gives the commands ON, HIGHER, HIGHER, HIGHER.
\<close>

theorem set_speed_power_witness:
  "is_on (device_state (set_is_on (Server_init (0::nat)) True)) \<and>
   message_queue (set_speed (set_is_on (Server_init (0::nat)) True) 0) = ''io'' \<and>
   \<not> is_on (device_state (set_speed (set_is_on (Server_init (0::nat)) True) 0)) \<and>
   \<not> is_on (device_state (Server_init (0::nat))) \<and>
   target_speed (device_state (Server_init (0::nat))) = 0 \<and> 0 < sint (4 :: i32) \<and>
   set_speed (Server_init (0::nat)) 4 =
     \<lparr>device_state = \<lparr>is_on = True, mode = 0, target_speed = 4, actual_speed = 0\<rparr>,
      message_queue = [MESSAGE_ON, MESSAGE_HIGHER, MESSAGE_HIGHER, MESSAGE_HIGHER]\<rparr>"
  using set_speed_power [of "set_is_on (Server_init (0::nat)) True" 4]
    set_speed_power [of "Server_init (0::nat)" 4]
  by (simp add: Server_init_def set_is_on_def push_def MESSAGE_ON_def MESSAGE_OFF_def
      MESSAGE_HIGHER_def replicate_numerals)

subsection \<open>Mode\<close>

lemma set_is_on_mode: "mode (device_state (set_is_on s b)) = mode (device_state s)"
  by (simp add: set_is_on_def push_def Let_def)

lemma set_speed_mode: "mode (device_state (set_speed s t)) = mode (device_state s)"
  by (simp add: set_speed_def step_commands_eq set_is_on_def push_def Let_def)

lemma handle_feedback_fields:
  "is_on (device_state (handle_feedback s f)) = is_on (device_state s)"
  "mode (device_state (handle_feedback s f)) = mode (device_state s)"
  "target_speed (device_state (handle_feedback s f)) = target_speed (device_state s)"
  "message_queue (handle_feedback s f) = message_queue s"
  by (simp_all add: handle_feedback_def Let_def)

lemma process_buffer_fields:
  "is_on (device_state (process_buffer s b)) = is_on (device_state s)"
  "mode (device_state (process_buffer s b)) = mode (device_state s)"
  "target_speed (device_state (process_buffer s b)) = target_speed (device_state s)"
  "message_queue (process_buffer s b) = message_queue s"
  by (simp_all add: process_buffer_def handle_feedback_fields)

lemma mode_changed_by:
  "mode (device_state (apply_operation s x)) \<noteq> mode (device_state s)
     \<Longrightarrow> (\<exists>m. x = SetMode m) \<and> is_on (device_state s)"
  by (cases x)
    (auto simp: set_is_on_mode set_speed_mode process_buffer_fields set_mode_def
      split: if_splits)

lemma run_mode_changed:
  "mode (device_state (run s ops)) \<noteq> mode (device_state s)
     \<Longrightarrow> \<exists>pre m post. ops = pre @ SetMode m # post \<and> is_on (device_state (run s pre))"
proof (induction ops rule: rev_induct)
  case Nil
  then show ?case by (simp add: run_Nil)
next
  case (snoc x xs)
  show ?case
  proof (cases "mode (device_state (run s xs)) = mode (device_state s)")
    case True
    with snoc.prems
    have "mode (device_state (apply_operation (run s xs) x)) \<noteq> mode (device_state (run s xs))"
      by (simp add: run_snoc)
    from mode_changed_by [OF this]
    obtain m where "x = SetMode m" "is_on (device_state (run s xs))"
      by blast
    then have "xs @ [x] = xs @ SetMode m # [] \<and> is_on (device_state (run s xs))"
      by simp
    then show ?thesis by blast
  next
    case False
    from snoc.IH [OF this] obtain pre m post
      where "xs = pre @ SetMode m # post" "is_on (device_state (run s pre))"
      by blast
    then have "xs @ [x] = pre @ SetMode m # (post @ [x]) \<and> is_on (device_state (run s pre))"
      by simp
    then show ?thesis by blast
  qed
qed

text \<open>
  Claim C7. For every mode \<open>m\<close>, \<open>set_mode(m)\<close> leaves the mode and every other field
  unchanged when \<open>is_on\<close> is false, and sets the mode to \<open>m\<close>, whatever the current
  mode is, when \<open>is_on\<close> is true. Hence, in every state reached from the initial state
  by mutation operations and received lines, the mode differs from its initial value
  only if the sequence contains a \<open>set_mode\<close> call that was made while \<open>is_on\<close> was
  true.
\<close>

theorem set_mode_gate:
  "(\<not> is_on (device_state s) \<longrightarrow> set_mode s m = s) \<and>
   (is_on (device_state s) \<longrightarrow>
      set_mode s m = s\<lparr>device_state := (device_state s)\<lparr>mode := m\<rparr>\<rparr>) \<and>
   (mode (device_state (run (Server_init m0) ops)) \<noteq> m0 \<longrightarrow>
      (\<exists>pre m' post. ops = pre @ SetMode m' # post \<and>
         is_on (device_state (run (Server_init m0) pre))))"
proof -
  have "mode (device_state (Server_init m0)) = m0"
    by (simp add: Server_init_def)
  with run_mode_changed [of "Server_init m0" ops] show ?thesis
    by (simp add: set_mode_def)
qed

text \<open>
  \<open>set_mode(7)\<close> on the initial state, which is off; \<open>set_mode\<close> to the current mode 0
  and to 7 after power-on; and the run \<open>set_is_on(true)\<close>, \<open>set_mode(7)\<close>, which
  changes the mode.
\<close>

theorem set_mode_gate_witness:
  "\<not> is_on (device_state (Server_init (0::nat))) \<and>
   set_mode (Server_init (0::nat)) 7 = Server_init 0 \<and>
   is_on (device_state (set_is_on (Server_init (0::nat)) True)) \<and>
   mode (device_state (set_mode (set_is_on (Server_init (0::nat)) True) 0)) = 0 \<and>
   mode (device_state (set_mode (set_is_on (Server_init (0::nat)) True) 7)) = 7 \<and>
   mode (device_state (run (Server_init (0::nat)) [SetIsOn True, SetMode 7])) \<noteq> 0 \<and>
   (\<exists>pre m' post. [SetIsOn True, SetMode (7::nat)] = pre @ SetMode m' # post \<and>
      is_on (device_state (run (Server_init 0) pre)))"
  using set_mode_gate [of "Server_init (0::nat)" "7::nat" "0::nat" "[SetIsOn True, SetMode (7::nat)]"]
    set_mode_gate [of "set_is_on (Server_init (0::nat)) True" "7::nat" "0::nat" "[]"]
    set_mode_gate [of "set_is_on (Server_init (0::nat)) True" "0::nat" "0::nat" "[]"]
  by (simp add: Server_init_def set_is_on_def push_def run_def set_mode_def)

subsection \<open>The commands that reach the queue\<close>

lemma apply_operation_queue:
  "\<exists>added. message_queue (apply_operation s x) = message_queue s @ added \<and>
     set added \<subseteq> {MESSAGE_ON, MESSAGE_OFF, MESSAGE_HIGHER, MESSAGE_LOWER}"
proof (cases x)
  case (SetIsOn b)
  then show ?thesis by (auto simp: set_is_on_def push_def Let_def)
next
  case (SetSpeed t)
  then show ?thesis
    by (auto simp: set_speed_def step_commands_eq set_is_on_def push_def Let_def)
next
  case (SetMode m)
  then show ?thesis by (simp add: set_mode_def)
next
  case (Received b)
  then show ?thesis by (simp add: process_buffer_fields)
qed

lemma run_queue:
  "\<exists>added. message_queue (run s ops) = message_queue s @ added \<and>
     set added \<subseteq> {MESSAGE_ON, MESSAGE_OFF, MESSAGE_HIGHER, MESSAGE_LOWER}"
proof (induction ops rule: rev_induct)
  case Nil
  then show ?case by (simp add: run_Nil)
next
  case (snoc x xs)
  from snoc obtain a where a: "message_queue (run s xs) = message_queue s @ a"
    "set a \<subseteq> {MESSAGE_ON, MESSAGE_OFF, MESSAGE_HIGHER, MESSAGE_LOWER}"
    by blast
  from apply_operation_queue [of "run s xs" x] obtain b
    where b: "message_queue (apply_operation (run s xs) x) = message_queue (run s xs) @ b"
      "set b \<subseteq> {MESSAGE_ON, MESSAGE_OFF, MESSAGE_HIGHER, MESSAGE_LOWER}"
    by blast
  from a b have "message_queue (run s (xs @ [x])) = message_queue s @ (a @ b) \<and>
      set (a @ b) \<subseteq> {MESSAGE_ON, MESSAGE_OFF, MESSAGE_HIGHER, MESSAGE_LOWER}"
    by (simp add: run_snoc)
  then show ?case by blast
qed

lemma opcodes_distinct:
  "MESSAGE_MODE \<notin> {MESSAGE_ON, MESSAGE_OFF, MESSAGE_HIGHER, MESSAGE_LOWER}"
  by (simp add: MESSAGE_ON_def MESSAGE_OFF_def MESSAGE_MODE_def MESSAGE_LOWER_def
      MESSAGE_HIGHER_def)

lemma run_no_mode_opcode:
  "MESSAGE_MODE \<notin> set (message_queue (run (Server_init m0) ops))"
proof
  assume m: "MESSAGE_MODE \<in> set (message_queue (run (Server_init m0) ops))"
  from run_queue [of "Server_init m0" ops] obtain added
    where "message_queue (run (Server_init m0) ops) = message_queue (Server_init m0) @ added"
      and "set added \<subseteq> {MESSAGE_ON, MESSAGE_OFF, MESSAGE_HIGHER, MESSAGE_LOWER}"
    by blast
  with m have "MESSAGE_MODE \<in> {MESSAGE_ON, MESSAGE_OFF, MESSAGE_HIGHER, MESSAGE_LOWER}"
    by (auto simp: Server_init_def)
  with opcodes_distinct show False by simp
qed

text \<open>
  Claim C6 says that each of the five opcodes, MODE included, is enqueued by some call
  of a mutation operation. It is not: no sequence of mutation operations and received
  lines, from the initial state, puts the MODE opcode in the queue. \<open>set_mode\<close> only
  stores the mode, and \<open>MESSAGE_MODE\<close> is used nowhere.
\<close>

theorem mode_opcode_never_enqueued:
  "\<not> (\<exists>ops :: nat Operation list.
         MESSAGE_MODE \<in> set (message_queue (run (Server_init 0) ops)))"
  using run_no_mode_opcode [where ?'a = nat] by blast

text \<open>
  Claim C6, amended. The opcodes are the five bytes \<open>i\<close> (ON), \<open>o\<close> (OFF),
  \<open>h\<close> (HIGHER), \<open>l\<close> (LOWER) and \<open>m\<close> (MODE). Every byte that a sequence of
  mutation operations adds to the queue is one of ON, OFF, HIGHER and LOWER, and each of
  these four is enqueued by some mutation operation call: ON and OFF by
  \<open>set_is_on(true)\<close>, \<open>set_is_on(false)\<close>, and HIGHER and LOWER by \<open>set_speed(2)\<close>,
  \<open>set_speed(1)\<close>. MODE is never enqueued.
\<close>

theorem enqueued_opcodes:
  "(\<exists>added. message_queue (run s ops) = message_queue s @ added \<and>
      set added \<subseteq> {MESSAGE_ON, MESSAGE_OFF, MESSAGE_HIGHER, MESSAGE_LOWER}) \<and>
   [MESSAGE_ON, MESSAGE_OFF, MESSAGE_HIGHER, MESSAGE_LOWER, MESSAGE_MODE] = ''iohlm'' \<and>
   message_queue (run (Server_init m0) [SetIsOn True, SetIsOn False]) = [MESSAGE_ON, MESSAGE_OFF] \<and>
   message_queue (run (Server_init m0) [SetSpeed 2, SetSpeed 1])
     = [MESSAGE_ON, MESSAGE_HIGHER, MESSAGE_LOWER] \<and>
   MESSAGE_MODE \<notin> set (message_queue (run (Server_init m0) ops'))"
proof -
  have 1: "\<exists>added. message_queue (run s ops) = message_queue s @ added \<and>
      set added \<subseteq> {MESSAGE_ON, MESSAGE_OFF, MESSAGE_HIGHER, MESSAGE_LOWER}"
    by (rule run_queue)
  have 2: "[MESSAGE_ON, MESSAGE_OFF, MESSAGE_HIGHER, MESSAGE_LOWER, MESSAGE_MODE] = ''iohlm''"
    by (simp add: MESSAGE_ON_def MESSAGE_OFF_def MESSAGE_MODE_def MESSAGE_LOWER_def
        MESSAGE_HIGHER_def)
  have 3: "message_queue (run (Server_init m0) [SetIsOn True, SetIsOn False])
      = [MESSAGE_ON, MESSAGE_OFF]"
    by (simp add: run_def Server_init_def set_is_on_def push_def)
  have 4: "message_queue (run (Server_init m0) [SetSpeed 2, SetSpeed 1])
     = [MESSAGE_ON, MESSAGE_HIGHER, MESSAGE_LOWER]"
    by (simp add: run_def Server_init_def set_is_on_def push_def set_speed_def step_commands_eq)
  have 5: "MESSAGE_MODE \<notin> set (message_queue (run (Server_init m0) ops'))"
    by (rule run_no_mode_opcode)
  from 1 2 3 4 5 show ?thesis by blast
qed

text \<open>A run that turns the device on, sets a mode, raises the speed and turns it off.\<close>

theorem enqueued_opcodes_witness:
  "message_queue (run (Server_init (0::nat)) [SetIsOn True, SetMode 3, SetSpeed 3, SetSpeed 0])
     = ''ihho'' \<and>
   MESSAGE_MODE \<notin> set (message_queue
     (run (Server_init (0::nat)) [SetIsOn True, SetMode 3, SetSpeed 3, SetSpeed 0]))"
  using enqueued_opcodes [of "Server_init (0::nat)" "[SetIsOn True, SetMode 3, SetSpeed 3, SetSpeed 0]"
      "0::nat" "[SetIsOn True, SetMode 3, SetSpeed 3, SetSpeed 0]"]
  by (simp add: run_def Server_init_def set_is_on_def push_def set_speed_def step_commands_eq
      set_mode_def MESSAGE_ON_def MESSAGE_OFF_def MESSAGE_HIGHER_def MESSAGE_LOWER_def
      replicate_numerals)

subsection \<open>The range of the speeds\<close>

text \<open>
  Claim C2 says that both speeds stay within 0..32 whatever the operations are, and that
  \<open>set_speed\<close> clamps its argument. \<open>Server::set_speed\<close> stores the speed it is
  given, and the poll loop of the gateway passes the speed of a task to it as it comes:
  after the task \<open>POWER true\<close> the task \<open>SPEED 100\<close> leaves \<open>target_speed = 100\<close>,
  above \<open>MAX_SPEED\<close>, and the task \<open>SPEED -5\<close> leaves \<open>target_speed = -5\<close>, below
  \<open>MIN_SPEED\<close>. The feedback line \<open>speed_down\<close>, received in the initial state,
  leaves \<open>actual_speed = -1\<close>.
\<close>

theorem speeds_leave_range:
  "sint (target_speed (device_state
     (dispatch (SPEED 100) (dispatch (POWER True) (Server_init (0::nat)))))) = 100 \<and>
   sint MAX_SPEED = 32 \<and>
   sint (target_speed (device_state
     (dispatch (SPEED (- 5)) (dispatch (POWER True) (Server_init (0::nat)))))) = - 5 \<and>
   sint MIN_SPEED = 0 \<and>
   sint (actual_speed (device_state
     (process_buffer (Server_init (0::nat)) ''speed_down''))) = - 1"
  by (simp add: Server_init_def set_is_on_def push_def set_speed_def step_commands_eq
      process_buffer_def c_string_def strip_cr_def handle_feedback_def MAX_SPEED_def MIN_SPEED_def)

section \<open>Properties of the receive loop\<close>

lemma read_line_terminated:
  "CHR 0x0A \<notin> set line \<Longrightarrow>
     read_line (map Some line @ Some (CHR 0x0A) # rest) buffer = (buffer @ line, rest)"
  by (induction line arbitrary: buffer) auto

lemma read_line_timeout:
  "CHR 0x0A \<notin> set line \<Longrightarrow>
     read_line (map Some line @ None # rest) buffer = (buffer @ line, rest)"
  by (induction line arbitrary: buffer) auto

lemma read_line_end:
  "CHR 0x0A \<notin> set line \<Longrightarrow> read_line (map Some line) buffer = (buffer @ line, [])"
  by (induction line arbitrary: buffer) auto

lemma c_string_no_nul: "CHR 0x00 \<notin> set line \<Longrightarrow> c_string line = line"
  by (auto simp add: c_string_def takeWhile_eq_all_conv)

lemma c_string_nul: "CHR 0x00 \<notin> set line \<Longrightarrow> c_string (line @ CHR 0x00 # junk) = line"
  by (induction line) (auto simp add: c_string_def)

lemma handle_feedback_other:
  "f \<notin> {''power_on'', ''power_off'', ''speed_up'', ''speed_down''} \<Longrightarrow> handle_feedback s f = s"
  by (simp add: handle_feedback_def)

lemma sint_succ:
  fixes a :: i32
  shows "sint a < 2147483647 \<Longrightarrow> sint (a + 1) = sint a + 1"
    and "sint a = 2147483647 \<Longrightarrow> sint (a + 1) = - 2147483648"
proof -
  assume "sint a < 2147483647"
  moreover have "- (2 ^ 31) \<le> sint a + 1"
    using sint_ge [of a] by simp
  ultimately show "sint (a + 1) = sint a + 1"
    by (simp add: sint_word_ariths signed_take_bit_int_eq_self)
next
  assume "sint a = 2147483647"
  then have "sint a = sint (2147483647 :: i32)" by simp
  then have "a = 2147483647"
    by (simp only: word_eq_iff_signed [where ?'a = int, symmetric])
  then show "sint (a + 1) = - 2147483648" by simp
qed

lemma sint_pred:
  fixes a :: i32
  shows "- 2147483648 < sint a \<Longrightarrow> sint (a - 1) = sint a - 1"
    and "sint a = - 2147483648 \<Longrightarrow> sint (a - 1) = 2147483647"
proof -
  assume "- 2147483648 < sint a"
  moreover have "sint a - 1 < 2 ^ 31"
    using sint_lt [of a] by simp
  ultimately show "sint (a - 1) = sint a - 1"
    by (simp add: sint_word_ariths signed_take_bit_int_eq_self)
next
  assume "sint a = - 2147483648"
  then have "sint a = sint (- 2147483648 :: i32)" by simp
  then have "a = - 2147483648"
    by (simp only: word_eq_iff_signed [where ?'a = int, symmetric])
  then show "sint (a - 1) = 2147483647" by simp
qed

text \<open>
  Claim C3 says that the receive loop treats a byte sequence as a complete line only
  once a line terminator has been received, and that a line other than the four tokens
  leaves the state unchanged. The inner loop also ends when a read returns nothing, and
  the buffer is converted as a C string: the bytes \<open>power_on\<close> followed by no
  terminator at all set \<open>actual_speed\<close> to 1; the line \<open>speed_up\<close>, terminated, but
  with a failed read between \<open>speed\<close> and \<open>_up\<close>, leaves \<open>actual_speed\<close> at 0; and a
  line that is \<open>power_on\<close>, a NUL byte and \<open>x\<close>, which is not the token, sets
  \<open>actual_speed\<close> to 1. The increment is that of a 32-bit atomic: at
  \<open>actual_speed = 2147483647\<close> the feedback \<open>speed_up\<close> gives -2147483648.
\<close>

theorem line_without_terminator:
  "CHR 0x0A \<notin> set ''power_on'' \<and>
   actual_speed (device_state (rx_loop (Server_init (0::nat)) (map Some ''power_on''))) = 1 \<and>
   actual_speed (device_state (rx_loop (Server_init (0::nat))
      (map Some ''speed'' @ [None] @ map Some ''_up'' @ [Some (CHR 0x0A)]))) = 0 \<and>
   ''power_on'' @ [CHR 0x00] @ ''x'' \<noteq> ''power_on'' \<and>
   actual_speed (device_state (process_buffer (Server_init (0::nat))
      (''power_on'' @ [CHR 0x00] @ ''x''))) = 1 \<and>
   sint (actual_speed (device_state (handle_feedback
      \<lparr>device_state =
         \<lparr>is_on = True, mode = 0::nat, target_speed = 32, actual_speed = 2147483647\<rparr>,
       message_queue = []\<rparr> ''speed_up''))) = - 2147483648"
  by (simp add: rx_loop.simps rx_iteration_def process_buffer_def c_string_def strip_cr_def
      handle_feedback_def Server_init_def)

text \<open>
  Claim C3, amended. The feedback string of a received line is the line up to its first
  NUL byte, less one trailing carriage return: the bytes from the first NUL byte on are
  ignored, a trailing carriage return is stripped before classification, and a line
  that does not end in one is classified as it is. The feedback \<open>power_on\<close> sets
  \<open>actual_speed\<close> to 1, \<open>power_off\<close> sets it to 0, \<open>speed_up\<close> increments it by 1
  and \<open>speed_down\<close> decrements it by 1, in 32-bit two's-complement arithmetic (the
  increment of 2147483647 is -2147483648, the decrement of -2147483648 is 2147483647),
  and any other feedback leaves the whole state unchanged. An empty line, with or
  without carriage return, changes nothing. The receive loop takes the bytes it has read
  as a complete line when it reads a line terminator, and also when a read returns no
  byte.
\<close>

theorem feedback_line:
  "handle_feedback s ''power_on'' = s\<lparr>device_state := (device_state s)\<lparr>actual_speed := 1\<rparr>\<rparr> \<and>
   handle_feedback s ''power_off'' = s\<lparr>device_state := (device_state s)\<lparr>actual_speed := 0\<rparr>\<rparr> \<and>
   handle_feedback s ''speed_up'' =
     s\<lparr>device_state := (device_state s)\<lparr>actual_speed := actual_speed (device_state s) + 1\<rparr>\<rparr> \<and>
   handle_feedback s ''speed_down'' =
     s\<lparr>device_state := (device_state s)\<lparr>actual_speed := actual_speed (device_state s) - 1\<rparr>\<rparr> \<and>
   (sint (actual_speed (device_state s)) < 2147483647 \<longrightarrow>
      sint (actual_speed (device_state (handle_feedback s ''speed_up'')))
        = sint (actual_speed (device_state s)) + 1) \<and>
   (sint (actual_speed (device_state s)) = 2147483647 \<longrightarrow>
      sint (actual_speed (device_state (handle_feedback s ''speed_up''))) = - 2147483648) \<and>
   (- 2147483648 < sint (actual_speed (device_state s)) \<longrightarrow>
      sint (actual_speed (device_state (handle_feedback s ''speed_down'')))
        = sint (actual_speed (device_state s)) - 1) \<and>
   (sint (actual_speed (device_state s)) = - 2147483648 \<longrightarrow>
      sint (actual_speed (device_state (handle_feedback s ''speed_down''))) = 2147483647) \<and>
   (f \<notin> {''power_on'', ''power_off'', ''speed_up'', ''speed_down''} \<longrightarrow> handle_feedback s f = s) \<and>
   (CHR 0x00 \<notin> set line \<longrightarrow>
      process_buffer s (line @ CHR 0x00 # junk) = process_buffer s line) \<and>
   (CHR 0x00 \<notin> set line \<longrightarrow> process_buffer s (line @ [CHR 0x0D]) = handle_feedback s line) \<and>
   (CHR 0x00 \<notin> set line \<and> (line = [] \<or> last line \<noteq> CHR 0x0D) \<longrightarrow>
      process_buffer s line = handle_feedback s line) \<and>
   process_buffer s [] = s \<and> process_buffer s [CHR 0x0D] = s \<and>
   (CHR 0x0A \<notin> set bytes \<longrightarrow>
      rx_iteration s (map Some bytes @ Some (CHR 0x0A) # rest) = (process_buffer s bytes, rest) \<and>
      rx_iteration s (map Some bytes @ None # rest) = (process_buffer s bytes, rest) \<and>
      rx_iteration s (map Some bytes) = (process_buffer s bytes, []))"
proof -
  have tokens:
    "handle_feedback s ''power_on'' = s\<lparr>device_state := (device_state s)\<lparr>actual_speed := 1\<rparr>\<rparr>"
    "handle_feedback s ''power_off'' = s\<lparr>device_state := (device_state s)\<lparr>actual_speed := 0\<rparr>\<rparr>"
    "handle_feedback s ''speed_up'' =
       s\<lparr>device_state := (device_state s)\<lparr>actual_speed := actual_speed (device_state s) + 1\<rparr>\<rparr>"
    "handle_feedback s ''speed_down'' =
       s\<lparr>device_state := (device_state s)\<lparr>actual_speed := actual_speed (device_state s) - 1\<rparr>\<rparr>"
    by (simp_all add: handle_feedback_def Let_def)
  have up:
    "sint (actual_speed (device_state s)) < 2147483647 \<longrightarrow>
      sint (actual_speed (device_state (handle_feedback s ''speed_up'')))
        = sint (actual_speed (device_state s)) + 1"
    "sint (actual_speed (device_state s)) = 2147483647 \<longrightarrow>
      sint (actual_speed (device_state (handle_feedback s ''speed_up''))) = - 2147483648"
    using sint_succ [of "actual_speed (device_state s)"] by (simp_all add: tokens)
  have down:
    "- 2147483648 < sint (actual_speed (device_state s)) \<longrightarrow>
      sint (actual_speed (device_state (handle_feedback s ''speed_down'')))
        = sint (actual_speed (device_state s)) - 1"
    "sint (actual_speed (device_state s)) = - 2147483648 \<longrightarrow>
      sint (actual_speed (device_state (handle_feedback s ''speed_down''))) = 2147483647"
    using sint_pred [of "actual_speed (device_state s)"] by (simp_all add: tokens)
  have empty: "handle_feedback s [] = s"
    by (simp add: handle_feedback_def)
  have nul: "process_buffer s (line @ CHR 0x00 # junk) = process_buffer s line"
    if "CHR 0x00 \<notin> set line"
    using that empty
    using c_string_nul [of line junk]
    by (cases "line = []") (simp_all add: process_buffer_def c_string_no_nul strip_cr_def)
  have cr: "process_buffer s (line @ [CHR 0x0D]) = handle_feedback s line"
    if "CHR 0x00 \<notin> set line"
  proof -
    from that have "c_string (line @ [CHR 0x0D]) = line @ [CHR 0x0D]"
      by (intro c_string_no_nul) simp
    then show ?thesis by (simp add: process_buffer_def strip_cr_def)
  qed
  have plain: "process_buffer s line = handle_feedback s line"
    if "CHR 0x00 \<notin> set line" "line = [] \<or> last line \<noteq> CHR 0x0D"
    using that empty by (auto simp: process_buffer_def strip_cr_def c_string_no_nul)
  have blank: "process_buffer s [] = s" "process_buffer s [CHR 0x0D] = s"
    using empty by (simp_all add: process_buffer_def strip_cr_def c_string_def)
  have loop:
    "rx_iteration s (map Some bytes @ Some (CHR 0x0A) # rest) = (process_buffer s bytes, rest)
      \<and> rx_iteration s (map Some bytes @ None # rest) = (process_buffer s bytes, rest)
      \<and> rx_iteration s (map Some bytes) = (process_buffer s bytes, [])"
    if "CHR 0x0A \<notin> set bytes"
    using that
    by (simp add: rx_iteration_def read_line_terminated read_line_timeout read_line_end)
  from tokens up down handle_feedback_other [of f s] nul cr plain blank loop show ?thesis
    by blast
qed

text \<open>
  The inputs of the specification: \<open>speed_up\<close> with carriage return and line feed adds
  1 to \<open>actual_speed\<close>, and \<open>garbage\<close> with a line feed changes nothing. A line with
  a NUL byte: \<open>speed_up\<close>, NUL, \<open>xyz\<close> adds 1 as well.
\<close>

theorem feedback_line_witness:
  "''garbage'' \<notin> {''power_on'', ''power_off'', ''speed_up'', ''speed_down''} \<and>
   CHR 0x00 \<notin> set ''speed_up'' \<and> CHR 0x0A \<notin> set (''speed_up'' @ [CHR 0x0D]) \<and>
   CHR 0x00 \<notin> set ''garbage'' \<and> last ''garbage'' \<noteq> CHR 0x0D \<and> CHR 0x0A \<notin> set ''garbage'' \<and>
   sint (actual_speed (device_state (Server_init (0::nat)))) < 2147483647 \<and>
   - 2147483648 < sint (actual_speed (device_state (Server_init (0::nat)))) \<and>
   sint (actual_speed (device_state (fst (rx_iteration (Server_init (0::nat))
      (map Some ''speed_up'' @ [Some (CHR 0x0D), Some (CHR 0x0A)]))))) = 1 \<and>
   sint (actual_speed (device_state
      (process_buffer (Server_init (0::nat)) (''speed_up'' @ CHR 0x00 # ''xyz'')))) = 1 \<and>
   sint (actual_speed (device_state (handle_feedback (Server_init (0::nat)) ''speed_down'')))
      = - 1 \<and>
   rx_iteration (Server_init (0::nat)) (map Some ''garbage'' @ [Some (CHR 0x0A)])
     = (Server_init 0, [])"
  using feedback_line [of "Server_init (0::nat)" "''garbage''" "''speed_up''" "''xyz''"
      "''speed_up'' @ [CHR 0x0D]" "[]"]
    feedback_line [of "Server_init (0::nat)" "''garbage''" "''garbage''" "''xyz''"
      "''garbage''" "[]"]
  by (simp add: Server_init_def)

section \<open>Properties of the baud rate selection\<close>

text \<open>
  Claim C10. For every requested rate \<open>r\<close> strictly greater than 38400,
  \<open>find_closest_baud_rate(r)\<close> is the 9600 baud constant, not 38400; for every
  \<open>r \<le> 38400\<close> it is the smallest supported rate that is at least \<open>r\<close>.
\<close>

theorem find_closest_baud_rate_spec:
  "(38400 < r \<longrightarrow> find_closest_baud_rate r = Baud_9600) \<and>
   (r \<le> 38400 \<longrightarrow>
      r \<le> to_baud_rate_count (find_closest_baud_rate r) \<and>
      (\<forall>b. r \<le> to_baud_rate_count b \<longrightarrow>
         to_baud_rate_count (find_closest_baud_rate r) \<le> to_baud_rate_count b))"
proof (intro conjI impI allI)
  assume "38400 < r"
  then show "find_closest_baud_rate r = Baud_9600"
    by (auto simp: find_closest_baud_rate_def word_le_nat_alt word_less_nat_alt)
next
  assume "r \<le> 38400"
  then show "r \<le> to_baud_rate_count (find_closest_baud_rate r)"
    by (auto simp: find_closest_baud_rate_def word_le_nat_alt word_less_nat_alt)
next
  fix b
  assume "r \<le> 38400" "r \<le> to_baud_rate_count b"
  then show "to_baud_rate_count (find_closest_baud_rate r) \<le> to_baud_rate_count b"
    by (cases b) (auto simp: find_closest_baud_rate_def word_le_nat_alt word_less_nat_alt)
qed

text \<open>The rates 38401 and 115200, above the largest one, and 100 and 38400, below it.\<close>

theorem find_closest_baud_rate_spec_witness:
  "(38400 :: 32 word) < 38401 \<and> find_closest_baud_rate 38401 = Baud_9600 \<and>
   (38400 :: 32 word) < 115200 \<and> find_closest_baud_rate 115200 = Baud_9600 \<and>
   (100 :: 32 word) \<le> 38400 \<and> find_closest_baud_rate 100 = Baud_110 \<and>
   (100 :: 32 word) \<le> to_baud_rate_count Baud_110 \<and>
   find_closest_baud_rate 38400 = Baud_38400"
  using find_closest_baud_rate_spec [of 38401] find_closest_baud_rate_spec [of 115200]
    find_closest_baud_rate_spec [of 100] find_closest_baud_rate_spec [of 38400]
  by (simp add: find_closest_baud_rate_def)

section \<open>Properties of the gateway client\<close>

subsection \<open>A failed fetch\<close>

lemma check_status_cases:
  "check_status parse res g = (True, g) \<and> (\<exists>r. res = Some r \<and> status r = 200) \<or>
   (\<exists>fmt args. check_status parse res g = (False, log Error fmt args g)) \<and>
     (res = None \<or> (\<exists>r. res = Some r \<and> status r \<noteq> 200))"
  by (auto simp: check_status_def split: option.splits sum.splits)

lemma check_status_trace:
  "\<exists>l. trace (snd (check_status parse res g)) = trace g @ l \<and> \<not> list_ex is_request l"
  using check_status_cases [of parse res g]
  by (auto simp: log_def)




subsection \<open>The requests of a run\<close>

lemma broadcast_is_online_trace:
  "\<exists>l. trace (broadcast_is_online parse b g) = trace g @ Request ''/setonline'' (SetOnline b) # l
       \<and> \<not> list_ex is_request l"
proof -
  let ?g1 = "g\<lparr>responses := drop 1 (responses g),
               trace := trace g @ [Request ''/setonline'' (SetOnline b)]\<rparr>"
  from check_status_trace [of parse "next_response g" ?g1] obtain l
    where "trace (snd (check_status parse (next_response g) ?g1)) = trace ?g1 @ l"
      and "\<not> list_ex is_request l"
    by blast
  then have "trace (broadcast_is_online parse b g)
      = trace g @ Request ''/setonline'' (SetOnline b) # l \<and> \<not> list_ex is_request l"
    by (simp add: broadcast_is_online_def Post_def)
  then show ?thesis by blast
qed

lemma broadcast_state_trace:
  "\<exists>st l. trace (broadcast_state parse g) = trace g @ Request ''/setstate'' (SetState st) # l
       \<and> \<not> list_ex is_request l"
proof -
  obtain st where st: "st = \<lparr>dto_is_on = is_on (device_state (server g)),
                   dto_accepts_commands = accepts_commands (server g),
                   dto_target_speed = target_speed (device_state (server g)),
                   dto_actual_speed = actual_speed (device_state (server g)),
                   dto_mode = mode (device_state (server g))\<rparr>"
    by simp
  let ?g1 = "g\<lparr>responses := drop 1 (responses g),
               trace := trace g @ [Request ''/setstate'' (SetState st)]\<rparr>"
  from check_status_trace [of parse "next_response g" ?g1] obtain l
    where "trace (snd (check_status parse (next_response g) ?g1)) = trace ?g1 @ l"
      and "\<not> list_ex is_request l"
    by blast
  then have "trace (broadcast_state parse g)
      = trace g @ Request ''/setstate'' (SetState st) # l \<and> \<not> list_ex is_request l"
    by (simp add: broadcast_state_def Post_def st Let_def)
  then show ?thesis by blast
qed

lemma poll_iteration_trace:
  "\<exists>added. trace (snd (poll_iteration parse deserialize g)) = trace g @ added \<and>
     Request ''/setonline'' (SetOnline False) \<notin> set added"
proof -
  let ?g1 = "g\<lparr>responses := drop 1 (responses g), trace := trace g @ [Request ''/fetch'' Fetch]\<rparr>"
  obtain ok g2 where cs: "check_status parse (next_response g) ?g1 = (ok, g2)"
    by (cases "check_status parse (next_response g) ?g1")
  from check_status_trace [of parse "next_response g" ?g1] cs obtain l
    where l: "trace g2 = trace g @ Request ''/fetch'' Fetch # l" "\<not> list_ex is_request l"
    by auto
  have nl: "Request ''/setonline'' (SetOnline False) \<notin> set (Request ''/fetch'' Fetch # l)"
    using l(2) by (auto simp: list_ex_iff)
  have bs: "\<exists>added. trace (broadcast_state parse (g2\<lparr>server := s\<rparr>)) = trace g @ added \<and>
     Request ''/setonline'' (SetOnline False) \<notin> set added" for s
  proof -
    from broadcast_state_trace [of parse "g2\<lparr>server := s\<rparr>"] obtain st k
      where "trace (broadcast_state parse (g2\<lparr>server := s\<rparr>))
          = trace (g2\<lparr>server := s\<rparr>) @ Request ''/setstate'' (SetState st) # k"
        and "\<not> list_ex is_request k"
      by blast
    with l nl have "trace (broadcast_state parse (g2\<lparr>server := s\<rparr>))
          = trace g @ (Request ''/fetch'' Fetch # l @ Request ''/setstate'' (SetState st) # k)
        \<and> Request ''/setonline'' (SetOnline False)
            \<notin> set (Request ''/fetch'' Fetch # l @ Request ''/setstate'' (SetState st) # k)"
      by (auto simp: list_ex_iff)
    then show ?thesis by blast
  qed
  have shape: "trace (snd (poll_iteration parse deserialize g)) = trace g2 \<or>
      (\<exists>f. trace (snd (poll_iteration parse deserialize g)) = trace g2 @ [Log Warn f []]) \<or>
      (\<exists>s ms. trace (snd (poll_iteration parse deserialize g))
          = trace (broadcast_state parse (g2\<lparr>server := s\<rparr>)) @ [Sleep ms])"
    using cs
    by (simp add: poll_iteration_def Post_def log_def Let_def
        split: bool.splits option.splits sum.splits json.splits prod.splits outcome.splits)
      blast
  then consider
    (a) "trace (snd (poll_iteration parse deserialize g)) = trace g2"
    | (b) f where "trace (snd (poll_iteration parse deserialize g)) = trace g2 @ [Log Warn f []]"
    | (c) s ms where "trace (snd (poll_iteration parse deserialize g))
          = trace (broadcast_state parse (g2\<lparr>server := s\<rparr>)) @ [Sleep ms]"
    by blast
  then show ?thesis
  proof cases
    case a
    with l nl show ?thesis by auto
  next
    case b
    with l nl have "trace (snd (poll_iteration parse deserialize g))
        = trace g @ (Request ''/fetch'' Fetch # l @ [Log Warn f []]) \<and>
        Request ''/setonline'' (SetOnline False)
          \<notin> set (Request ''/fetch'' Fetch # l @ [Log Warn f []])"
      by auto
    then show ?thesis by blast
  next
    case c
    from bs [of s] obtain added
      where "trace (broadcast_state parse (g2\<lparr>server := s\<rparr>)) = trace g @ added"
        and "Request ''/setonline'' (SetOnline False) \<notin> set added"
      by blast
    with c have
      "trace (snd (poll_iteration parse deserialize g)) = trace g @ (added @ [Sleep ms]) \<and>
        Request ''/setonline'' (SetOnline False) \<notin> set (added @ [Sleep ms])"
      by auto
    then show ?thesis by blast
  qed
qed

lemma poll_loop_trace:
  "\<exists>added. trace (snd (poll_loop parse deserialize n g)) = trace g @ added \<and>
     Request ''/setonline'' (SetOnline False) \<notin> set added"
proof (induction n arbitrary: g)
  case 0
  show ?case by simp
next
  case (Suc n)
  obtain out g1 where it: "poll_iteration parse deserialize g = (out, g1)"
    by (cases "poll_iteration parse deserialize g")
  from poll_iteration_trace [of parse deserialize g] it obtain a
    where a: "trace g1 = trace g @ a" "Request ''/setonline'' (SetOnline False) \<notin> set a"
    by auto
  show ?case
  proof (cases out)
    case Terminate
    with it a show ?thesis by auto
  next
    case (Return u)
    from Suc.IH [of g1] obtain b
      where "trace (snd (poll_loop parse deserialize n g1)) = trace g1 @ b"
        and "Request ''/setonline'' (SetOnline False) \<notin> set b"
      by blast
    with a have "trace (snd (poll_loop parse deserialize n g1)) = trace g @ (a @ b) \<and>
        Request ''/setonline'' (SetOnline False) \<notin> set (a @ b)"
      by simp
    with it Return show ?thesis by auto
  qed
qed

lemma create_session_trace:
  "\<exists>l. trace (snd (create_session parse g)) = trace g @ Request ''/newsession'' NewSession # l
       \<and> \<not> list_ex is_request l"
proof -
  let ?g1 = "g\<lparr>responses := drop 1 (responses g),
               trace := trace g @ [Request ''/newsession'' NewSession]\<rparr>"
  obtain ok g2 where cs: "check_status parse (next_response g) ?g1 = (ok, g2)"
    by (cases "check_status parse (next_response g) ?g1")
  from check_status_trace [of parse "next_response g" ?g1] cs obtain l
    where l: "trace g2 = trace g @ Request ''/newsession'' NewSession # l"
      "\<not> list_ex is_request l"
    by auto
  have shape: "trace (snd (create_session parse g)) = trace g2 \<or>
      (\<exists>lv f a. trace (snd (create_session parse g)) = trace g2 @ [Log lv f a])"
    using cs
    by (simp add: create_session_def Post_def log_def
        split: bool.splits option.splits sum.splits json.splits prod.splits)
  then consider
    (a) "trace (snd (create_session parse g)) = trace g2"
    | (b) lv f a where "trace (snd (create_session parse g)) = trace g2 @ [Log lv f a]"
    by blast
  then show ?thesis
  proof cases
    case a
    with l show ?thesis by auto
  next
    case b
    with l have "trace (snd (create_session parse g))
        = trace g @ Request ''/newsession'' NewSession # (l @ [Log lv f a]) \<and>
        \<not> list_ex is_request (l @ [Log lv f a])"
      by (auto simp: list_ex_iff)
    then show ?thesis by blast
  qed
qed

lemma startup_trace:
  "\<exists>l. trace (startup parse g) =
      trace g @ [Log Info ''Starting gateway client'' [],
                 Log Info ''Connecting to {}:{}'' [Text (address g), Number (sint (port g))],
                 Request ''/setonline'' (SetOnline True)] @ l \<and> \<not> list_ex is_request l"
proof -
  let ?g2 = "log Info ''Connecting to {}:{}'' [Text (address g), Number (sint (port g))]
      (log Info ''Starting gateway client'' [] g)"
  from broadcast_is_online_trace [of parse True ?g2] obtain l
    where "trace (broadcast_is_online parse True ?g2)
        = trace ?g2 @ Request ''/setonline'' (SetOnline True) # l" "\<not> list_ex is_request l"
    by blast
  then have "trace (startup parse g) =
      trace g @ [Log Info ''Starting gateway client'' [],
                 Log Info ''Connecting to {}:{}'' [Text (address g), Number (sint (port g))],
                 Request ''/setonline'' (SetOnline True)] @ l \<and> \<not> list_ex is_request l"
    by (simp add: startup_def log_def Let_def)
  then show ?thesis by blast
qed

text \<open>
  Claim C9 says that online-status=false is broadcast exactly once in every complete run
  of the update loop. A run in which the session is refused is complete, and broadcasts
  it not at all: with the online broadcast answered by status 200 and the session
  request by status 403, the update loop returns after the online broadcast, the session
  request and two log entries.
\<close>

theorem refused_session_stays_online:
  "update_loop (\<lambda>b. Inr (JObject [(''error'', JString ''bad password'')])) (\<lambda>j. None) 3
     \<lparr>server = Server_init (0::nat), address = ''gateway'', port = 443, update_rate = 500,
      session_password = [],
      responses = [Some \<lparr>status = 200, body = []\<rparr>, Some \<lparr>status = 403, body = ''error''\<rparr>],
      trace = []\<rparr> =
     (Return (),
      \<lparr>server = Server_init (0::nat), address = ''gateway'', port = 443, update_rate = 500,
       session_password = [], responses = [],
       trace = [Log Info ''Starting gateway client'' [],
                Log Info ''Connecting to {}:{}'' [Text ''gateway'', Number 443],
                Request ''/setonline'' (SetOnline True),
                Request ''/newsession'' NewSession,
                Log Error ''Could not fetch session data: code {}/{}''
                  [Code 403, Field (JString ''bad password'')],
                Log Warn ''Received invalid new session response'' []]\<rparr>) \<and>
   Request ''/setonline'' (SetOnline False) \<notin> set (trace (snd
     (update_loop (\<lambda>b. Inr (JObject [(''error'', JString ''bad password'')])) (\<lambda>j. None) 3
       \<lparr>server = Server_init (0::nat), address = ''gateway'', port = 443, update_rate = 500,
        session_password = [],
        responses = [Some \<lparr>status = 200, body = []\<rparr>, Some \<lparr>status = 403, body = ''error''\<rparr>],
        trace = []\<rparr>)))"
  by (simp add: update_loop_def startup_def log_def broadcast_is_online_def Post_def
      next_response_def check_status_def create_session_def)

text \<open>
  Claim C9, amended. The update loop first broadcasts online-status=true, which is its
  first request, and then requests a session, which is its second. If the session is
  not created, nothing follows: the body of the poll loop is never executed. In every
  complete run in which the session is created, online-status=false is broadcast exactly
  once, and it is the last request of the run.
\<close>

theorem update_loop_lifecycle:
  "\<exists>l1 l2 rest.
      trace (snd (update_loop parse deserialize n g)) =
        trace g @ [Log Info ''Starting gateway client'' [],
                   Log Info ''Connecting to {}:{}'' [Text (address g), Number (sint (port g))],
                   Request ''/setonline'' (SetOnline True)] @ l1 @
                  Request ''/newsession'' NewSession # l2 @ rest \<and>
      \<not> list_ex is_request l1 \<and> \<not> list_ex is_request l2 \<and>
      (fst (create_session parse (startup parse g)) \<noteq> Return True \<longrightarrow> rest = []) \<and>
      (fst (create_session parse (startup parse g)) = Return True \<and>
       fst (update_loop parse deserialize n g) = Return () \<longrightarrow>
         (\<exists>pre post. rest = pre @ Request ''/setonline'' (SetOnline False) # post \<and>
            Request ''/setonline'' (SetOnline False) \<notin> set pre \<and> \<not> list_ex is_request post))"
proof -
  from startup_trace [of parse g] obtain l1
    where l1: "trace (startup parse g) =
      trace g @ [Log Info ''Starting gateway client'' [],
                 Log Info ''Connecting to {}:{}'' [Text (address g), Number (sint (port g))],
                 Request ''/setonline'' (SetOnline True)] @ l1" "\<not> list_ex is_request l1"
    by blast
  obtain out g4 where cs: "create_session parse (startup parse g) = (out, g4)"
    by (cases "create_session parse (startup parse g)")
  from create_session_trace [of parse "startup parse g"] cs obtain l2
    where l2: "trace g4 = trace (startup parse g) @ Request ''/newsession'' NewSession # l2"
      "\<not> list_ex is_request l2"
    by auto
  let ?head = "trace g @ [Log Info ''Starting gateway client'' [],
                   Log Info ''Connecting to {}:{}'' [Text (address g), Number (sint (port g))],
                   Request ''/setonline'' (SetOnline True)] @ l1 @
                  Request ''/newsession'' NewSession # l2"
  have g4: "trace g4 = ?head"
    using l1 l2 by simp
  show ?thesis
  proof (cases "out = Return True")
    case False
    then have "update_loop parse deserialize n g = (Terminate, g4) \<or>
        update_loop parse deserialize n g = (Return (), g4)"
      using cs by (cases out) (auto simp: update_loop_def)
    then have "trace (snd (update_loop parse deserialize n g)) = ?head @ []"
      using g4 by auto
    with False cs l1(2) l2(2) show ?thesis
      by (intro exI [of _ l1] exI [of _ l2] exI [of _ "[]"]) simp
  next
    case True
    obtain out5 g5 where pl: "poll_loop parse deserialize n g4 = (out5, g5)"
      by (cases "poll_loop parse deserialize n g4")
    from poll_loop_trace [of parse deserialize n g4] pl obtain pre
      where pre: "trace g5 = trace g4 @ pre" "Request ''/setonline'' (SetOnline False) \<notin> set pre"
      by auto
    show ?thesis
    proof (cases out5)
      case Terminate
      then have "update_loop parse deserialize n g = (Terminate, g5)"
        using cs True pl by (simp add: update_loop_def)
      then have "trace (snd (update_loop parse deserialize n g)) = ?head @ pre"
        "fst (update_loop parse deserialize n g) \<noteq> Return ()"
        using pre g4 by simp_all
      with True cs l1(2) l2(2) show ?thesis
        by (intro exI [of _ l1] exI [of _ l2] exI [of _ pre]) simp
    next
      case (Return u)
      then have ul: "update_loop parse deserialize n g
          = (Return (), broadcast_is_online parse False g5)"
        using cs True pl by (simp add: update_loop_def)
      from broadcast_is_online_trace [of parse False g5] obtain post
        where post: "trace (broadcast_is_online parse False g5)
            = trace g5 @ Request ''/setonline'' (SetOnline False) # post"
          "\<not> list_ex is_request post"
        by blast
      have "trace (snd (update_loop parse deserialize n g))
          = ?head @ (pre @ Request ''/setonline'' (SetOnline False) # post)"
        using ul post pre g4 by simp
      with True cs l1(2) l2(2) pre(2) post(2) show ?thesis
        by (intro exI [of _ l1] exI [of _ l2]
            exI [of _ "pre @ Request ''/setonline'' (SetOnline False) # post"]) auto
    qed
  qed
qed

text \<open>
  A run in which the session is created: one poll cycle fetches one task, a speed of 4,
  applies it, broadcasts the state and sleeps; then the loop is shut down.
\<close>

theorem update_loop_lifecycle_witness:
  "fst (create_session
     (\<lambda>b. if b = ''session'' then Inr (JObject [(''password'', JString ''secret'')])
           else if b = ''tasks'' then Inr (JObject [(''tasks'', JArray [JNumber 4])])
           else Inl ''parse error'')
     (startup
       (\<lambda>b. if b = ''session'' then Inr (JObject [(''password'', JString ''secret'')])
             else if b = ''tasks'' then Inr (JObject [(''tasks'', JArray [JNumber 4])])
             else Inl ''parse error'')
       \<lparr>server = Server_init (0::nat), address = ''gateway'', port = 443, update_rate = 500,
        session_password = [],
        responses = [Some \<lparr>status = 200, body = []\<rparr>, Some \<lparr>status = 200, body = ''session''\<rparr>,
                     Some \<lparr>status = 200, body = ''tasks''\<rparr>, Some \<lparr>status = 200, body = []\<rparr>,
                     Some \<lparr>status = 200, body = []\<rparr>],
        trace = []\<rparr>)) = Return True \<and>
   update_loop
     (\<lambda>b. if b = ''session'' then Inr (JObject [(''password'', JString ''secret'')])
           else if b = ''tasks'' then Inr (JObject [(''tasks'', JArray [JNumber 4])])
           else Inl ''parse error'')
     (\<lambda>j. case j of JNumber v \<Rightarrow> Some (SPEED (word_of_int v)) | _ \<Rightarrow> None) 1
     \<lparr>server = Server_init (0::nat), address = ''gateway'', port = 443, update_rate = 500,
      session_password = [],
      responses = [Some \<lparr>status = 200, body = []\<rparr>, Some \<lparr>status = 200, body = ''session''\<rparr>,
                   Some \<lparr>status = 200, body = ''tasks''\<rparr>, Some \<lparr>status = 200, body = []\<rparr>,
                   Some \<lparr>status = 200, body = []\<rparr>],
      trace = []\<rparr> =
     (Return (),
      \<lparr>server =
         \<lparr>device_state = \<lparr>is_on = True, mode = 0, target_speed = 4, actual_speed = 0\<rparr>,
          message_queue = ''ihhh''\<rparr>,
       address = ''gateway'', port = 443, update_rate = 500, session_password = ''secret'',
       responses = [],
       trace = [Log Info ''Starting gateway client'' [],
                Log Info ''Connecting to {}:{}'' [Text ''gateway'', Number 443],
                Request ''/setonline'' (SetOnline True),
                Request ''/newsession'' NewSession,
                Log Info ''Created session password: {}'' [Text ''secret''],
                Request ''/fetch'' Fetch,
                Request ''/setstate''
                  (SetState \<lparr>dto_is_on = True, dto_accepts_commands = False,
                             dto_target_speed = 4, dto_actual_speed = 0, dto_mode = 0\<rparr>),
                Sleep 500,
                Request ''/setonline'' (SetOnline False)]\<rparr>)"
  using update_loop_lifecycle [of
      "\<lambda>b. if b = ''session'' then Inr (JObject [(''password'', JString ''secret'')])
           else if b = ''tasks'' then Inr (JObject [(''tasks'', JArray [JNumber 4])])
           else Inl ''parse error''"
      "\<lambda>j. case j of JNumber v \<Rightarrow> Some (SPEED (word_of_int v)) | _ \<Rightarrow> None" 1
      "\<lparr>server = Server_init (0::nat), address = ''gateway'', port = 443, update_rate = 500,
        session_password = [],
        responses = [Some \<lparr>status = 200, body = []\<rparr>, Some \<lparr>status = 200, body = ''session''\<rparr>,
                     Some \<lparr>status = 200, body = ''tasks''\<rparr>, Some \<lparr>status = 200, body = []\<rparr>,
                     Some \<lparr>status = 200, body = []\<rparr>],
        trace = []\<rparr>"]
  by (simp add: update_loop_def startup_def log_def broadcast_is_online_def Post_def
      next_response_def check_status_def create_session_def poll_iteration_def
      json_contains_def broadcast_state_def accepts_commands_def Server_init_def
      set_speed_def set_is_on_def push_def step_commands_eq MESSAGE_ON_def MESSAGE_HIGHER_def
      replicate_numerals)

end
